theory Spec2Isabelle
  imports Complex_Main "HOL-Library.Product_Lexorder"
begin

section \<open>Data model (graph.h)\<close>

text \<open>
  The C++ \<open>double\<close> values are modelled as exact reals: rounding is not modelled, and
  the one non-finite value the search writes itself, the +infinity of the distance table,
  is a constructor of its own (\<open>Infinity\<close> below). Distances and coordinates passed in are
  finite numbers; NaN and infinite arguments are outside the model. Node identities
  (\<open>long long\<close>) and the hour (\<open>int\<close>) are only compared, never computed with, so they
  are unbounded integers.
\<close>

record Node =
  id' :: int
  lat :: real
  lon :: real

record Edge =
  to :: int
  distance :: real
  speed_limit :: real
  road_type :: string
  crowd_multiplier :: real

datatype RouteMode = DISTANCE | SPEED_LIMIT | LEARNED

record RouteResult =
  path :: "int list"
  total_distance :: real
  estimated_time :: real
  mode :: RouteMode
  mode_name :: string

text \<open>
  \<open>nodes\<close> is the \<open>unordered_map\<close> from identity to node. \<open>adjacency_list\<close> is the
  \<open>unordered_map\<close> from identity to the vector of outgoing edges; it is kept as an
  association list (first binding of a key counts) because \<open>applyLearnedPatterns\<close> iterates
  over it. The iteration order of an \<open>unordered_map\<close> is unspecified; the list order stands
  for it.
\<close>

record Graph =
  nodes :: "int \<rightharpoonup> Node"
  adjacency_list :: "(int \<times> Edge list) list"

definition empty_graph :: Graph where
  "empty_graph = \<lparr>nodes = Map.empty, adjacency_list = []\<rparr>"

section \<open>Graph store (graph.cpp, lines 8-50)\<close>

definition addNode :: "Graph \<Rightarrow> int \<Rightarrow> real \<Rightarrow> real \<Rightarrow> Graph" where
  "addNode g i la lo = g\<lparr>nodes := (nodes g)(i \<mapsto> \<lparr>id' = i, lat = la, lon = lo\<rparr>)\<rparr>"

text \<open>The chain of comparisons at the head of \<open>addEdge\<close> (lines 15-29).\<close>

definition default_speed_limit :: "string \<Rightarrow> real" where
  "default_speed_limit rt =
     (if rt = ''motorway'' \<or> rt = ''motorway_link'' then 100
      else if rt = ''trunk'' \<or> rt = ''trunk_link'' then 80
      else if rt = ''primary'' \<or> rt = ''primary_link'' then 65
      else if rt = ''secondary'' then 55
      else if rt = ''tertiary'' \<or> rt = ''residential'' then 40
      else if rt = ''living_street'' then 20
      else 50)"

definition getEdges :: "Graph \<Rightarrow> int \<Rightarrow> Edge list option" where
  "getEdges g i = map_of (adjacency_list g) i"

definition getNode :: "Graph \<Rightarrow> int \<Rightarrow> Node option" where
  "getNode g i = nodes g i"

text \<open>
  \<open>adjacency_list[from]\<close> creates an empty vector for a new key (appended to the
  association list) and \<open>push_back\<close> appends the edge to the vector of the key.
\<close>

fun push_back_at :: "int \<Rightarrow> Edge \<Rightarrow> (int \<times> Edge list) list \<Rightarrow> (int \<times> Edge list) list" where
  "push_back_at k e [] = [(k, [e])]"
| "push_back_at k e ((k', es) # al) =
     (if k' = k then (k', es @ [e]) # al else (k', es) # push_back_at k e al)"

definition addEdge :: "Graph \<Rightarrow> int \<Rightarrow> int \<Rightarrow> real \<Rightarrow> string \<Rightarrow> Graph" where
  "addEdge g from_id to_id distance' rt =
     g\<lparr>adjacency_list :=
          push_back_at from_id
            \<lparr>to = to_id, distance = distance', speed_limit = default_speed_limit rt,
             road_type = rt, crowd_multiplier = 1\<rparr>
            (adjacency_list g)\<rparr>"

definition edgeCount :: "Graph \<Rightarrow> nat" where
  "edgeCount g = sum_list (map (\<lambda>p. length (snd p)) (adjacency_list g))"

section \<open>Edge cost model (graph.cpp, lines 95-136)\<close>

definition getTimeAdjustedSpeed :: "Edge \<Rightarrow> int \<Rightarrow> real" where
  "getTimeAdjustedSpeed e hour_of_day =
     (let base_speed = speed_limit e;
          morning_rush = (hour_of_day \<ge> 7 \<and> hour_of_day \<le> 9);
          evening_rush = (hour_of_day \<ge> 17 \<and> hour_of_day \<le> 19)
      in if morning_rush \<or> evening_rush then
           (if road_type e = ''motorway'' \<or> road_type e = ''trunk'' then base_speed * 0.4
            else if road_type e = ''primary'' then base_speed * 0.6
            else if road_type e = ''secondary'' \<or> road_type e = ''tertiary'' then base_speed * 0.8
            else base_speed)
         else base_speed)"

fun calculateEdgeWeight :: "Edge \<Rightarrow> RouteMode \<Rightarrow> int \<Rightarrow> real" where
  "calculateEdgeWeight e DISTANCE hour_of_day = distance e"
| "calculateEdgeWeight e SPEED_LIMIT hour_of_day = distance e / (speed_limit e * 1000 / 3600)"
| "calculateEdgeWeight e LEARNED hour_of_day =
     (let adjusted_speed = getTimeAdjustedSpeed e hour_of_day;
          adjusted_speed = adjusted_speed * crowd_multiplier e
      in distance e / (adjusted_speed * 1000 / 3600))"

section \<open>Crowd pattern annotation (graph.cpp, lines 59-92)\<close>

text \<open>
  The random source of one call is a sequence of draws \<open>draws :: nat \<Rightarrow> real\<close>, read in
  order; \<open>dis(gen)\<close> returns the draw at the current position and moves on. The two
  counters are the numbers the function prints.
\<close>

record learn_state =
  draw_pos :: nat
  shortcuts_found :: int
  congestion_points :: int

text \<open>The condition \<open>class_test && dis(gen) < p\<close>: the right operand, and with it the
  draw, is evaluated only when the road type test holds.\<close>

definition draw_below :: "(nat \<Rightarrow> real) \<Rightarrow> bool \<Rightarrow> real \<Rightarrow> learn_state \<Rightarrow> bool \<times> learn_state" where
  "draw_below draws class_test p s =
     (if class_test then (draws (draw_pos s) < p, s\<lparr>draw_pos := draw_pos s + 1\<rparr>)
      else (False, s))"

text \<open>The body of the inner loop (lines 70-85): three \<open>if\<close> statements in a row.\<close>

definition learn_edge :: "(nat \<Rightarrow> real) \<Rightarrow> Edge \<Rightarrow> learn_state \<Rightarrow> Edge \<times> learn_state" where
  "learn_edge draws e0 s0 =
     (let (hit1, s1) =
            draw_below draws (road_type e0 = ''motorway'' \<or> road_type e0 = ''trunk'') 0.05 s0;
          e1 = (if hit1 then e0\<lparr>crowd_multiplier := 0.6\<rparr> else e0);
          s1 = (if hit1 then s1\<lparr>congestion_points := congestion_points s1 + 1\<rparr> else s1);
          (hit2, s2) =
            draw_below draws (road_type e1 = ''primary'' \<or> road_type e1 = ''secondary'') 0.03 s1;
          e2 = (if hit2 then e1\<lparr>crowd_multiplier := 1.4\<rparr> else e1);
          s2 = (if hit2 then s2\<lparr>shortcuts_found := shortcuts_found s2 + 1\<rparr> else s2);
          (hit3, s3) = draw_below draws (road_type e2 = ''residential'') 0.02 s2;
          e3 = (if hit3 then e2\<lparr>crowd_multiplier := 1.2\<rparr> else e2);
          s3 = (if hit3 then s3\<lparr>shortcuts_found := shortcuts_found s3 + 1\<rparr> else s3)
      in (e3, s3))"

fun learn_edges :: "(nat \<Rightarrow> real) \<Rightarrow> Edge list \<Rightarrow> learn_state \<Rightarrow> Edge list \<times> learn_state" where
  "learn_edges draws [] s = ([], s)"
| "learn_edges draws (e # es) s =
     (let (e', s') = learn_edge draws e s;
          (es', s'') = learn_edges draws es s'
      in (e' # es', s''))"

fun learn_adjacency ::
  "(nat \<Rightarrow> real) \<Rightarrow> (int \<times> Edge list) list \<Rightarrow> learn_state \<Rightarrow> (int \<times> Edge list) list \<times> learn_state" where
  "learn_adjacency draws [] s = ([], s)"
| "learn_adjacency draws ((k, es) # al) s =
     (let (es', s') = learn_edges draws es s;
          (al', s'') = learn_adjacency draws al s'
      in ((k, es') # al', s''))"

definition applyLearnedPatterns :: "(nat \<Rightarrow> real) \<Rightarrow> Graph \<Rightarrow> Graph" where
  "applyLearnedPatterns draws g =
     g\<lparr>adjacency_list :=
          fst (learn_adjacency draws (adjacency_list g)
                 \<lparr>draw_pos = 0, shortcuts_found = 0, congestion_points = 0\<rparr>)\<rparr>"

section \<open>Shortest path search (graph.cpp, lines 139-229)\<close>

text \<open>
  A value of the distance table is a finite number or the +infinity written at the start.
  \<open>distances[k]\<close> and \<open>previous[k]\<close> are \<open>operator[]\<close> of \<open>unordered_map\<close>: on a key that
  is not in the table they insert a value-initialised entry, 0.0 and 0, and return it.
  The inserted entry reads like the missing one, so the tables below stay partial maps and
  the two read functions supply the 0.
\<close>

datatype table_double = Finite real | Infinity

definition distances_at :: "(int \<rightharpoonup> table_double) \<Rightarrow> int \<Rightarrow> table_double" where
  "distances_at d k = (case d k of None \<Rightarrow> Finite 0 | Some v \<Rightarrow> v)"

definition previous_at :: "(int \<rightharpoonup> int) \<Rightarrow> int \<Rightarrow> int" where
  "previous_at p k = (case p k of None \<Rightarrow> 0 | Some v \<Rightarrow> v)"

fun less_than_entry :: "real \<Rightarrow> table_double \<Rightarrow> bool" where
  "less_than_entry x (Finite y) = (x < y)"
| "less_than_entry x Infinity = True"

fun greater_than_entry :: "real \<Rightarrow> table_double \<Rightarrow> bool" where
  "greater_than_entry x (Finite y) = (x > y)"
| "greater_than_entry x Infinity = False"

text \<open>
  The frontier is a \<open>priority_queue\<close> of pairs under \<open>std::greater\<close>: \<open>top\<close> is the least
  pair in the lexicographic order of (distance, identity). It is kept as a sorted list:
  \<open>push\<close> is \<open>insort\<close>, \<open>top\<close> the head, \<open>pop\<close> the tail.
\<close>

record search_state =
  distances :: "int \<rightharpoonup> table_double"
  previous :: "int \<rightharpoonup> int"
  pq :: "(real \<times> int) list"

text \<open>The \<open>for\<close> loop over the outgoing edges of the extracted node (lines 185-194).\<close>

fun relax_edges :: "RouteMode \<Rightarrow> int \<Rightarrow> real \<Rightarrow> int \<Rightarrow> Edge list \<Rightarrow> search_state \<Rightarrow> search_state" where
  "relax_edges mode' hour_of_day current_dist current_id [] st = st"
| "relax_edges mode' hour_of_day current_dist current_id (e # es) st =
     (let weight = calculateEdgeWeight e mode' hour_of_day;
          new_dist = current_dist + weight
      in relax_edges mode' hour_of_day current_dist current_id es
           (if less_than_entry new_dist (distances_at (distances st) (to e))
            then st\<lparr>distances := (distances st)(to e \<mapsto> Finite new_dist),
                    previous := (previous st)(to e \<mapsto> current_id),
                    pq := insort (new_dist, to e) (pq st)\<rparr>
            else st))"

text \<open>
  One pass through the body of the \<open>while\<close> loop (lines 172-195) on a non-empty frontier.
  The flag is False when the body leaves the loop by \<open>break\<close>.
\<close>

definition search_body :: "Graph \<Rightarrow> int \<Rightarrow> RouteMode \<Rightarrow> int \<Rightarrow> search_state \<Rightarrow> bool \<times> search_state" where
  "search_body g end_id mode' hour_of_day st =
     (let (current_dist, current_id) = hd (pq st);
          st1 = st\<lparr>pq := tl (pq st)\<rparr>
      in if current_id = end_id then (False, st1)
         else if greater_than_entry current_dist (distances_at (distances st1) current_id)
         then (True, st1)
         else (case getEdges g current_id of
                 None \<Rightarrow> (True, st1)
               | Some edges \<Rightarrow> (True, relax_edges mode' hour_of_day current_dist current_id edges st1)))"

partial_function (option) search_loop ::
  "Graph \<Rightarrow> int \<Rightarrow> RouteMode \<Rightarrow> int \<Rightarrow> search_state \<Rightarrow> search_state option" where
  "search_loop g end_id mode' hour_of_day st =
     (if pq st = [] then Some st
      else (let (continue, st') = search_body g end_id mode' hour_of_day st
            in if continue then search_loop g end_id mode' hour_of_day st' else Some st'))"

declare search_loop.simps [code]

text \<open>
  The walk along the predecessor links (lines 203-207). \<open>p\<close> is \<open>result.path\<close> so far,
  with \<open>push_back\<close> as appending. The loop has no bound of its own: where it does not end,
  the value is None.
\<close>

partial_function (option) walk_back :: "(int \<rightharpoonup> int) \<Rightarrow> int \<Rightarrow> int \<Rightarrow> int list \<Rightarrow> int list option" where
  "walk_back prev start_id current p =
     (if current \<noteq> start_id
      then walk_back prev start_id (previous_at prev current) (p @ [current])
      else Some p)"

declare walk_back.simps [code]

text \<open>The inner loop of the metric pass (lines 215-224): the first edge to the next node counts.\<close>

fun add_first_edge :: "int \<Rightarrow> int \<Rightarrow> Edge list \<Rightarrow> RouteResult \<Rightarrow> RouteResult" where
  "add_first_edge hour_of_day next_id [] result = result"
| "add_first_edge hour_of_day next_id (e # es) result =
     (if to e = next_id then
        (let speed = getTimeAdjustedSpeed e hour_of_day * crowd_multiplier e
         in result\<lparr>total_distance := total_distance result + distance e,
                   estimated_time := estimated_time result + distance e / (speed * 1000 / 3600)\<rparr>)
      else add_first_edge hour_of_day next_id es result)"

text \<open>
  The outer loop (lines 212-226), \<open>i\<close> from 0 below \<open>path.size() - 1\<close>. The path holds
  at least the start identity when the loop is reached, so the unsigned subtraction does
  not wrap.
\<close>

definition calculate_metrics :: "Graph \<Rightarrow> int \<Rightarrow> RouteResult \<Rightarrow> RouteResult" where
  "calculate_metrics g hour_of_day result =
     fold (\<lambda>i r. case getEdges g (path r ! i) of
                    None \<Rightarrow> r
                  | Some edges \<Rightarrow> add_first_edge hour_of_day (path r ! (i + 1)) edges r)
          [0 ..< length (path result) - 1] result"

definition mode_name_of :: "RouteMode \<Rightarrow> string" where
  "mode_name_of m =
     (case m of
        DISTANCE \<Rightarrow> ''Pure Distance''
      | SPEED_LIMIT \<Rightarrow> ''Speed Limit (Traditional GPS)''
      | LEARNED \<Rightarrow> ''Learned Patterns (Advanced)'')"

definition initial_state :: "Graph \<Rightarrow> int \<Rightarrow> search_state" where
  "initial_state g start_id =
     \<lparr>distances = (\<lambda>k. case nodes g k of None \<Rightarrow> None | Some n \<Rightarrow> Some Infinity)
                     (start_id \<mapsto> Finite 0),
      previous = Map.empty,
      pq = [(0, start_id)]\<rparr>"

text \<open>\<open>dijkstra\<close> returns None exactly when one of its two unbounded loops does not end.\<close>

definition dijkstra :: "Graph \<Rightarrow> int \<Rightarrow> int \<Rightarrow> RouteMode \<Rightarrow> int \<Rightarrow> RouteResult option" where
  "dijkstra g start_id end_id mode' hour_of_day =
     (let result = \<lparr>path = [], total_distance = 0, estimated_time = 0,
                     mode = mode', mode_name = mode_name_of mode'\<rparr>
      in case search_loop g end_id mode' hour_of_day (initial_state g start_id) of
           None \<Rightarrow> None
         | Some st \<Rightarrow>
             if distances_at (distances st) end_id = Infinity then Some result
             else (case walk_back (previous st) start_id end_id [] of
                     None \<Rightarrow> None
                   | Some p \<Rightarrow>
                       Some (calculate_metrics g hour_of_day
                               (result\<lparr>path := rev (p @ [start_id])\<rparr>))))"

section \<open>Notions used to state the properties\<close>

text \<open>All edges the graph stores, over all source identities.\<close>

definition stored_edges :: "Graph \<Rightarrow> Edge list" where
  "stored_edges g = concat (map snd (adjacency_list g))"

text \<open>A sequence of calls of the three mutating operations, run on the empty graph.
  Each call of \<open>applyLearnedPatterns\<close> comes with the draws its generator produces.\<close>

datatype call =
  AddNode int real real
  | AddEdge int int real string
  | ApplyLearnedPatterns "nat \<Rightarrow> real"

fun run_call :: "call \<Rightarrow> Graph \<Rightarrow> Graph" where
  "run_call (AddNode i la lo) g = addNode g i la lo"
| "run_call (AddEdge f t d rt) g = addEdge g f t d rt"
| "run_call (ApplyLearnedPatterns draws) g = applyLearnedPatterns draws g"

definition run_calls :: "call list \<Rightarrow> Graph" where
  "run_calls cs = fold run_call cs empty_graph"

text \<open>What \<open>applyLearnedPatterns\<close> may do to one edge: keep it, or set its multiplier to
  one of the three constants.\<close>

definition relearned :: "Edge \<Rightarrow> Edge \<Rightarrow> bool" where
  "relearned e e' =
     (e' = e \<or> e' = e\<lparr>crowd_multiplier := 0.6\<rparr> \<or> e' = e\<lparr>crowd_multiplier := 1.4\<rparr>
      \<or> e' = e\<lparr>crowd_multiplier := 1.2\<rparr>)"

text \<open>The states a search passes through: the state at the head of the \<open>while\<close> loop with
  the flag True, the state after a \<open>break\<close> with the flag False.\<close>

inductive search_reaches ::
  "Graph \<Rightarrow> int \<Rightarrow> int \<Rightarrow> RouteMode \<Rightarrow> int \<Rightarrow> bool \<times> search_state \<Rightarrow> bool"
  for g :: Graph and start_id :: int and end_id :: int and mode' :: RouteMode and hour_of_day :: int where
  reaches_initial: "search_reaches g start_id end_id mode' hour_of_day (True, initial_state g start_id)"
| reaches_body: "search_reaches g start_id end_id mode' hour_of_day (True, st) \<Longrightarrow> pq st \<noteq> [] \<Longrightarrow>
     search_reaches g start_id end_id mode' hour_of_day (search_body g end_id mode' hour_of_day st)"

text \<open>The data model's conditions on a stored edge: length not negative, speed limit and
  crowd multiplier positive.\<close>

definition edge_valid :: "Edge \<Rightarrow> bool" where
  "edge_valid e = (0 \<le> distance e \<and> 0 < speed_limit e \<and> 0 < crowd_multiplier e)"

definition edges_valid :: "Graph \<Rightarrow> bool" where
  "edges_valid g = list_all edge_valid (stored_edges g)"

text \<open>What the search keeps true when no edge has a negative cost: a frontier entry has a
  distance that is not negative and is the first entry (0, start) or was pushed by a
  relaxation; a relaxation wrote only to nodes of the graph, from a node that was itself
  extracted; the table entry of an identity that is not a node still reads 0.\<close>

definition search_invariant :: "Graph \<Rightarrow> int \<Rightarrow> search_state \<Rightarrow> bool" where
  "search_invariant g start_id st =
     ((\<forall>(d, v) \<in> set (pq st). 0 \<le> d \<and> (v = start_id \<and> d = 0 \<or> v \<in> dom (previous st)))
      \<and> (\<forall>k v. previous st k = Some v \<longrightarrow>
             nodes g k \<noteq> None \<and> (v = start_id \<or> v \<in> dom (previous st)))
      \<and> (\<forall>k. nodes g k = None \<longrightarrow> distances_at (distances st) k = Finite 0))"

text \<open>The graphs of the examples.\<close>

definition two_node_graph :: Graph where
  "two_node_graph =
     addEdge (addNode (addNode empty_graph 1 0 0) 2 0 0.001) 1 2 111 ''residential''"

definition dangling_graph :: Graph where
  "dangling_graph =
     addEdge (addEdge (addEdge (addEdge
       (addNode (addNode (addNode empty_graph 1 0 0) 3 0 0.002) 4 0.001 0.001)
       1 2 1 ''residential'') 2 3 1 ''residential'') 1 4 3 ''residential'')
       4 3 3 ''residential''"

definition parallel_graph :: Graph where
  "parallel_graph =
     addEdge (addEdge (addNode (addNode empty_graph 1 0 0) 2 0 0.001)
       1 2 10 ''motorway'') 1 2 5 ''residential''"

definition negative_graph :: Graph where
  "negative_graph =
     addEdge (addEdge (addNode (addNode empty_graph 1 0 0) 3 0 0.002)
       1 2 (- 5) ''residential'') 2 3 1 ''residential''"

section \<open>The edge cost model\<close>

text \<open>
  C6. For every edge and hour, \<open>getTimeAdjustedSpeed\<close> is the speed limit of the edge times
  one factor: in the hours 7, 8, 9 and 17, 18, 19 the factor is 0.4 for motorway and trunk,
  0.6 for primary, 0.8 for secondary and tertiary and 1 for every other road class; in
  every other hour it is 1 for all classes.
\<close>

theorem getTimeAdjustedSpeed_factor:
  "getTimeAdjustedSpeed e h =
     speed_limit e *
       (if h \<in> {7, 8, 9} \<or> h \<in> {17, 18, 19} then
          (if road_type e = ''motorway'' \<or> road_type e = ''trunk'' then 0.4
           else if road_type e = ''primary'' then 0.6
           else if road_type e = ''secondary'' \<or> road_type e = ''tertiary'' then 0.8
           else 1)
        else 1)"
proof -
  have rush: "(h \<in> {7, 8, 9} \<or> h \<in> {17, 18, 19}) = (7 \<le> h \<and> h \<le> 9 \<or> 17 \<le> h \<and> h \<le> 19)"
    by auto
  show ?thesis
  proof (cases "7 \<le> h \<and> h \<le> 9 \<or> 17 \<le> h \<and> h \<le> 19")
    case True
    with rush show ?thesis
      by (simp add: getTimeAdjustedSpeed_def Let_def)
  next
    case False
    with rush show ?thesis
      by (simp add: getTimeAdjustedSpeed_def Let_def)
  qed
qed

theorem getTimeAdjustedSpeed_factor_witness:
  "getTimeAdjustedSpeed \<lparr>to = 2, distance = 100, speed_limit = 65, road_type = ''primary'',
       crowd_multiplier = 1\<rparr> 18 = 39
   \<and> getTimeAdjustedSpeed \<lparr>to = 2, distance = 100, speed_limit = 65, road_type = ''primary'',
       crowd_multiplier = 1\<rparr> 23 = 65"
  using getTimeAdjustedSpeed_factor
    [of "\<lparr>to = 2, distance = 100, speed_limit = 65, road_type = ''primary'',
          crowd_multiplier = 1\<rparr>" 18]
    getTimeAdjustedSpeed_factor
    [of "\<lparr>to = 2, distance = 100, speed_limit = 65, road_type = ''primary'',
          crowd_multiplier = 1\<rparr>" 23]
  by simp

text \<open>
  C5. For every edge and hour the cost is the one of its mode: the stored distance in
  Distance mode; distance / (speed limit * 1000/3600) in SpeedLimit mode; distance /
  ((time adjusted speed * crowd multiplier) * 1000/3600) in Learned mode. The first two do
  not change with the hour or the crowd multiplier; the Learned cost changes with each of
  them on some edge.
\<close>

theorem calculateEdgeWeight_by_mode:
  "calculateEdgeWeight e DISTANCE h = distance e
   \<and> calculateEdgeWeight e SPEED_LIMIT h = distance e / (speed_limit e * (1000 / 3600))
   \<and> calculateEdgeWeight e LEARNED h =
       distance e / ((getTimeAdjustedSpeed e h * crowd_multiplier e) * (1000 / 3600))
   \<and> calculateEdgeWeight (e\<lparr>crowd_multiplier := c\<rparr>) DISTANCE h' = calculateEdgeWeight e DISTANCE h
   \<and> calculateEdgeWeight (e\<lparr>crowd_multiplier := c\<rparr>) SPEED_LIMIT h' = calculateEdgeWeight e SPEED_LIMIT h
   \<and> (\<exists>e1 h1 h2. calculateEdgeWeight e1 LEARNED h1 \<noteq> calculateEdgeWeight e1 LEARNED h2)
   \<and> (\<exists>e1 c1 h1. calculateEdgeWeight (e1\<lparr>crowd_multiplier := c1\<rparr>) LEARNED h1
                   \<noteq> calculateEdgeWeight e1 LEARNED h1)"
proof -
  let ?m = "\<lparr>to = 2, distance = 100, speed_limit = 100, road_type = ''motorway'',
             crowd_multiplier = 1\<rparr>"
  have hour: "calculateEdgeWeight ?m LEARNED 8 \<noteq> calculateEdgeWeight ?m LEARNED 12"
    by (simp add: getTimeAdjustedSpeed_def)
  have crowd: "calculateEdgeWeight (?m\<lparr>crowd_multiplier := 0.6\<rparr>) LEARNED 12
               \<noteq> calculateEdgeWeight ?m LEARNED 12"
    by (simp add: getTimeAdjustedSpeed_def)
  have depends_on_hour:
    "\<exists>e1 h1 h2. calculateEdgeWeight e1 LEARNED h1 \<noteq> calculateEdgeWeight e1 LEARNED h2"
    using hour by blast
  have depends_on_crowd:
    "\<exists>e1 c1 h1. calculateEdgeWeight (e1\<lparr>crowd_multiplier := c1\<rparr>) LEARNED h1
                   \<noteq> calculateEdgeWeight e1 LEARNED h1"
    using crowd by blast
  have formulas:
    "calculateEdgeWeight e DISTANCE h = distance e"
    "calculateEdgeWeight e SPEED_LIMIT h = distance e / (speed_limit e * (1000 / 3600))"
    "calculateEdgeWeight e LEARNED h =
       distance e / ((getTimeAdjustedSpeed e h * crowd_multiplier e) * (1000 / 3600))"
    "calculateEdgeWeight (e\<lparr>crowd_multiplier := c\<rparr>) DISTANCE h' = calculateEdgeWeight e DISTANCE h"
    "calculateEdgeWeight (e\<lparr>crowd_multiplier := c\<rparr>) SPEED_LIMIT h' = calculateEdgeWeight e SPEED_LIMIT h"
    by (simp_all add: Let_def)
  from formulas depends_on_hour depends_on_crowd show ?thesis
    by (intro conjI)
qed

theorem calculateEdgeWeight_by_mode_witness:
  "calculateEdgeWeight \<lparr>to = 2, distance = 100, speed_limit = 100, road_type = ''motorway'',
       crowd_multiplier = 1\<rparr> LEARNED 8 = 9"
  using calculateEdgeWeight_by_mode
    [of "\<lparr>to = 2, distance = 100, speed_limit = 100, road_type = ''motorway'',
          crowd_multiplier = 1\<rparr>" 8]
  by (simp add: getTimeAdjustedSpeed_def)

section \<open>The graph store and the crowd annotation\<close>

lemma map_of_push_back_at:
  "map_of (push_back_at k e al) k' =
     (if k' = k then Some ((case map_of al k of None \<Rightarrow> [] | Some es \<Rightarrow> es) @ [e])
      else map_of al k')"
  by (induction al) auto

lemma set_stored_push_back_at:
  "set (concat (map snd (push_back_at k e al))) = insert e (set (concat (map snd al)))"
proof (induction k e al rule: push_back_at.induct)
  case (1 k e)
  then show ?case by simp
next
  case (2 k e k' es al)
  show ?case
  proof (cases "k' = k")
    case True
    then show ?thesis by simp
  next
    case False
    have "set (concat (map snd ((k', es) # push_back_at k e al))) =
          set es \<union> set (concat (map snd (push_back_at k e al)))"
      by simp
    also have "\<dots> = set es \<union> insert e (set (concat (map snd al)))"
      using 2 False by simp
    also have "\<dots> = insert e (set (concat (map snd ((k', es) # al))))"
      by simp
    finally show ?thesis
      using False by simp
  qed
qed

lemma set_stored_edges_addEdge:
  "set (stored_edges (addEdge g from_id to_id d rt)) =
     insert \<lparr>to = to_id, distance = d, speed_limit = default_speed_limit rt,
             road_type = rt, crowd_multiplier = 1\<rparr> (set (stored_edges g))"
proof -
  have "adjacency_list (addEdge g from_id to_id d rt) =
          push_back_at from_id \<lparr>to = to_id, distance = d, speed_limit = default_speed_limit rt,
             road_type = rt, crowd_multiplier = 1\<rparr> (adjacency_list g)"
    by (simp add: addEdge_def)
  then show ?thesis
    unfolding stored_edges_def by (simp only: set_stored_push_back_at)
qed

lemma default_speed_limit_values:
  "default_speed_limit rt \<in> {100, 80, 65, 55, 40, 20, 50}"
  by (simp add: default_speed_limit_def)

lemma default_speed_limit_pos: "0 < default_speed_limit rt"
  by (simp add: default_speed_limit_def)

text \<open>
  C9. \<open>addEdge\<close> appends to the edges of \<open>from\<close> an edge with the given target, distance
  and road class, the crowd multiplier 1 and the speed limit of the table: motorway and
  motorway_link 100, trunk and trunk_link 80, primary and primary_link 65, secondary 55,
  tertiary and residential 40, living_street 20, and 50 for every other token. The
  derivation is a total function of the token.
\<close>

theorem addEdge_speed_limit_table:
  "getEdges (addEdge g from_id to_id d rt) from_id =
     Some ((case getEdges g from_id of None \<Rightarrow> [] | Some es \<Rightarrow> es) @
           [\<lparr>to = to_id, distance = d, speed_limit = default_speed_limit rt,
             road_type = rt, crowd_multiplier = 1\<rparr>])
   \<and> default_speed_limit ''motorway'' = 100 \<and> default_speed_limit ''motorway_link'' = 100
   \<and> default_speed_limit ''trunk'' = 80 \<and> default_speed_limit ''trunk_link'' = 80
   \<and> default_speed_limit ''primary'' = 65 \<and> default_speed_limit ''primary_link'' = 65
   \<and> default_speed_limit ''secondary'' = 55
   \<and> default_speed_limit ''tertiary'' = 40 \<and> default_speed_limit ''residential'' = 40
   \<and> default_speed_limit ''living_street'' = 20
   \<and> (rt \<notin> {''motorway'', ''motorway_link'', ''trunk'', ''trunk_link'', ''primary'',
              ''primary_link'', ''secondary'', ''tertiary'', ''residential'', ''living_street''}
        \<longrightarrow> default_speed_limit rt = 50)"
proof -
  have stored: "getEdges (addEdge g from_id to_id d rt) from_id =
     Some ((case getEdges g from_id of None \<Rightarrow> [] | Some es \<Rightarrow> es) @
           [\<lparr>to = to_id, distance = d, speed_limit = default_speed_limit rt,
             road_type = rt, crowd_multiplier = 1\<rparr>])"
    by (simp add: getEdges_def addEdge_def map_of_push_back_at)
  have table:
    "default_speed_limit ''motorway'' = 100" "default_speed_limit ''motorway_link'' = 100"
    "default_speed_limit ''trunk'' = 80" "default_speed_limit ''trunk_link'' = 80"
    "default_speed_limit ''primary'' = 65" "default_speed_limit ''primary_link'' = 65"
    "default_speed_limit ''secondary'' = 55"
    "default_speed_limit ''tertiary'' = 40" "default_speed_limit ''residential'' = 40"
    "default_speed_limit ''living_street'' = 20"
    by (simp_all add: default_speed_limit_def)
  have other: "rt \<notin> {''motorway'', ''motorway_link'', ''trunk'', ''trunk_link'', ''primary'',
              ''primary_link'', ''secondary'', ''tertiary'', ''residential'', ''living_street''}
        \<longrightarrow> default_speed_limit rt = 50"
    by (simp add: default_speed_limit_def)
  from stored table other show ?thesis
    by (intro conjI)
qed

theorem addEdge_speed_limit_table_witness:
  "getEdges (addEdge empty_graph 1 2 30 ''unclassified'') 1 =
     Some [\<lparr>to = 2, distance = 30, speed_limit = 50, road_type = ''unclassified'',
            crowd_multiplier = 1\<rparr>]"
  using addEdge_speed_limit_table [of empty_graph 1 2 30 "''unclassified''"]
  by (simp add: getEdges_def empty_graph_def)

lemma learn_edge_relearned: "relearned e (fst (learn_edge draws e s))"
proof -
  obtain hit1 s1 where d1:
    "draw_below draws (road_type e = ''motorway'' \<or> road_type e = ''trunk'') 0.05 s = (hit1, s1)"
    by (cases "draw_below draws (road_type e = ''motorway'' \<or> road_type e = ''trunk'') 0.05 s")
  define e1 where "e1 = (if hit1 then e\<lparr>crowd_multiplier := 0.6\<rparr> else e)"
  define t1 where "t1 = (if hit1 then s1\<lparr>congestion_points := congestion_points s1 + 1\<rparr> else s1)"
  obtain hit2 s2 where d2:
    "draw_below draws (road_type e1 = ''primary'' \<or> road_type e1 = ''secondary'') 0.03 t1 = (hit2, s2)"
    by (cases "draw_below draws (road_type e1 = ''primary'' \<or> road_type e1 = ''secondary'') 0.03 t1")
  define e2 where "e2 = (if hit2 then e1\<lparr>crowd_multiplier := 1.4\<rparr> else e1)"
  define t2 where "t2 = (if hit2 then s2\<lparr>shortcuts_found := shortcuts_found s2 + 1\<rparr> else s2)"
  obtain hit3 s3 where d3:
    "draw_below draws (road_type e2 = ''residential'') 0.02 t2 = (hit3, s3)"
    by (cases "draw_below draws (road_type e2 = ''residential'') 0.02 t2")
  define e3 where "e3 = (if hit3 then e2\<lparr>crowd_multiplier := 1.2\<rparr> else e2)"
  have result: "fst (learn_edge draws e s) = e3"
    unfolding learn_edge_def Let_def d1 prod.case e1_def [symmetric] t1_def [symmetric]
      d2 e2_def [symmetric] t2_def [symmetric] d3 e3_def [symmetric]
    by simp
  have "relearned e e3"
    unfolding relearned_def e3_def e2_def e1_def
    by (cases hit1; cases hit2; cases hit3) simp_all
  with result show ?thesis
    by simp
qed

lemma learn_edges_relearned:
  "list_all2 relearned es (fst (learn_edges draws es s))"
proof (induction es arbitrary: s)
  case Nil
  then show ?case by simp
next
  case (Cons e es)
  obtain e' s' where step: "learn_edge draws e s = (e', s')"
    by (cases "learn_edge draws e s")
  obtain es' s'' where rest: "learn_edges draws es s' = (es', s'')"
    by (cases "learn_edges draws es s'")
  have "relearned e e'"
    using learn_edge_relearned [of e draws s] step by simp
  moreover have "list_all2 relearned es es'"
    using Cons.IH [of s'] rest by simp
  ultimately show ?case
    using step rest by simp
qed

lemma learn_adjacency_relearned:
  "list_all2 (\<lambda>p p'. fst p' = fst p \<and> list_all2 relearned (snd p) (snd p'))
     al (fst (learn_adjacency draws al s))"
proof (induction al arbitrary: s)
  case Nil
  then show ?case by simp
next
  case (Cons p al)
  obtain k es where p: "p = (k, es)"
    by (cases p)
  obtain es' s' where step: "learn_edges draws es s = (es', s')"
    by (cases "learn_edges draws es s")
  obtain al' s'' where rest: "learn_adjacency draws al s' = (al', s'')"
    by (cases "learn_adjacency draws al s'")
  have "list_all2 relearned es es'"
    using learn_edges_relearned [of es draws s] step by simp
  moreover have "list_all2 (\<lambda>p p'. fst p' = fst p \<and> list_all2 relearned (snd p) (snd p')) al al'"
    using Cons.IH [of s'] rest by simp
  ultimately show ?case
    using p step rest by simp
qed

lemma relearned_positive:
  "relearned e e' \<Longrightarrow> 0 < speed_limit e \<and> 0 < crowd_multiplier e \<Longrightarrow>
   0 < speed_limit e' \<and> 0 < crowd_multiplier e'"
  by (auto simp: relearned_def)

lemma list_all2_relearned_positive:
  "list_all2 relearned es es' \<Longrightarrow>
   \<forall>e \<in> set es. 0 < speed_limit e \<and> 0 < crowd_multiplier e \<Longrightarrow>
   \<forall>e \<in> set es'. 0 < speed_limit e \<and> 0 < crowd_multiplier e"
  by (induction rule: list_all2_induct) (auto dest: relearned_positive)

lemma adjacency_relearned_positive:
  "list_all2 (\<lambda>p p'. fst p' = fst p \<and> list_all2 relearned (snd p) (snd p')) al al' \<Longrightarrow>
   \<forall>e \<in> set (concat (map snd al)). 0 < speed_limit e \<and> 0 < crowd_multiplier e \<Longrightarrow>
   \<forall>e \<in> set (concat (map snd al')). 0 < speed_limit e \<and> 0 < crowd_multiplier e"
proof (induction rule: list_all2_induct)
  case Nil
  then show ?case by simp
next
  case (Cons p al p' al')
  have "\<forall>e \<in> set (snd p'). 0 < speed_limit e \<and> 0 < crowd_multiplier e"
    using Cons.hyps(1) Cons.prems list_all2_relearned_positive [of "snd p" "snd p'"] by simp
  moreover have "\<forall>e \<in> set (concat (map snd al')). 0 < speed_limit e \<and> 0 < crowd_multiplier e"
    using Cons.IH Cons.prems by simp
  ultimately show ?case by auto
qed

lemma run_call_positive:
  assumes "\<forall>e \<in> set (stored_edges g). 0 < speed_limit e \<and> 0 < crowd_multiplier e"
  shows "\<forall>e \<in> set (stored_edges (run_call c g)). 0 < speed_limit e \<and> 0 < crowd_multiplier e"
proof (cases c)
  case (AddNode i la lo)
  with assms show ?thesis
    by (simp add: addNode_def stored_edges_def)
next
  case (AddEdge f t d rt)
  with assms show ?thesis
    by (simp add: set_stored_edges_addEdge default_speed_limit_pos)
next
  case (ApplyLearnedPatterns draws)
  have related: "list_all2 (\<lambda>p p'. fst p' = fst p \<and> list_all2 relearned (snd p) (snd p'))
      (adjacency_list g) (adjacency_list (applyLearnedPatterns draws g))"
    using learn_adjacency_relearned [of "adjacency_list g" draws]
    by (simp add: applyLearnedPatterns_def)
  have "\<forall>e \<in> set (concat (map snd (adjacency_list (applyLearnedPatterns draws g)))).
          0 < speed_limit e \<and> 0 < crowd_multiplier e"
    using assms unfolding stored_edges_def
    by (rule adjacency_relearned_positive [OF related])
  then show ?thesis
    unfolding stored_edges_def ApplyLearnedPatterns run_call.simps .
qed

lemma fold_run_call_positive:
  "\<forall>e \<in> set (stored_edges g). 0 < speed_limit e \<and> 0 < crowd_multiplier e \<Longrightarrow>
   \<forall>e \<in> set (stored_edges (fold run_call cs g)). 0 < speed_limit e \<and> 0 < crowd_multiplier e"
proof (induction cs arbitrary: g)
  case Nil
  then show ?case by simp
next
  case (Cons c cs)
  show ?case
    using Cons.IH [OF run_call_positive [OF Cons.prems, of c]] by simp
qed

text \<open>
  C10. After any sequence of \<open>addNode\<close>, \<open>addEdge\<close> and \<open>applyLearnedPatterns\<close> calls,
  whatever the draws, every stored edge has a positive speed limit and a positive crowd
  multiplier. \<open>addEdge\<close> adds one edge, with a speed limit of the table and the multiplier
  1, and leaves the nodes alone; \<open>applyLearnedPatterns\<close> leaves the nodes, the keys and
  the order of the edges alone and changes of an edge at most the multiplier, to 0.6, 1.4
  or 1.2.
\<close>

theorem stored_edges_stay_positive:
  "(\<forall>e \<in> set (stored_edges (run_calls cs)). 0 < speed_limit e \<and> 0 < crowd_multiplier e)
   \<and> set (stored_edges (addEdge g from_id to_id d rt)) =
       insert \<lparr>to = to_id, distance = d, speed_limit = default_speed_limit rt,
               road_type = rt, crowd_multiplier = 1\<rparr> (set (stored_edges g))
   \<and> default_speed_limit rt \<in> {100, 80, 65, 55, 40, 20, 50}
   \<and> nodes (addEdge g from_id to_id d rt) = nodes g
   \<and> nodes (applyLearnedPatterns draws g) = nodes g
   \<and> list_all2 (\<lambda>p p'. fst p' = fst p \<and> list_all2 relearned (snd p) (snd p'))
        (adjacency_list g) (adjacency_list (applyLearnedPatterns draws g))"
proof -
  have invariant:
    "\<forall>e \<in> set (stored_edges (run_calls cs)). 0 < speed_limit e \<and> 0 < crowd_multiplier e"
    unfolding run_calls_def
    by (rule fold_run_call_positive) (simp add: stored_edges_def empty_graph_def)
  have added: "set (stored_edges (addEdge g from_id to_id d rt)) =
       insert \<lparr>to = to_id, distance = d, speed_limit = default_speed_limit rt,
               road_type = rt, crowd_multiplier = 1\<rparr> (set (stored_edges g))"
    by (rule set_stored_edges_addEdge)
  have frame: "nodes (addEdge g from_id to_id d rt) = nodes g"
    "nodes (applyLearnedPatterns draws g) = nodes g"
    by (simp_all add: addEdge_def applyLearnedPatterns_def)
  have learned: "list_all2 (\<lambda>p p'. fst p' = fst p \<and> list_all2 relearned (snd p) (snd p'))
        (adjacency_list g) (adjacency_list (applyLearnedPatterns draws g))"
    using learn_adjacency_relearned [of "adjacency_list g" draws]
    by (simp add: applyLearnedPatterns_def)
  from invariant added default_speed_limit_values frame learned show ?thesis
    by (intro conjI)
qed

theorem stored_edges_stay_positive_witness:
  "stored_edges (run_calls [AddNode 1 0 0, AddEdge 1 2 30 ''motorway'',
                            ApplyLearnedPatterns (\<lambda>n. 0)]) =
     [\<lparr>to = 2, distance = 30, speed_limit = 100, road_type = ''motorway'',
       crowd_multiplier = 0.6\<rparr>]
   \<and> 0 < speed_limit \<lparr>to = 2, distance = 30, speed_limit = 100, road_type = ''motorway'',
       crowd_multiplier = 0.6\<rparr>
   \<and> 0 < crowd_multiplier \<lparr>to = 2, distance = 30, speed_limit = 100, road_type = ''motorway'',
       crowd_multiplier = 0.6\<rparr>"
proof -
  have run: "stored_edges (run_calls [AddNode 1 0 0, AddEdge 1 2 30 ''motorway'',
                            ApplyLearnedPatterns (\<lambda>n. 0)]) =
     [\<lparr>to = 2, distance = 30, speed_limit = 100, road_type = ''motorway'',
       crowd_multiplier = 0.6\<rparr>]"
    by (simp add: run_calls_def stored_edges_def empty_graph_def addNode_def addEdge_def
        applyLearnedPatterns_def learn_edge_def draw_below_def default_speed_limit_def)
  show ?thesis
    using stored_edges_stay_positive
      [of "[AddNode 1 0 0, AddEdge 1 2 30 ''motorway'', ApplyLearnedPatterns (\<lambda>n. 0)]",
       THEN conjunct1]
      run
    by simp
qed

section \<open>The search\<close>

text \<open>
  C8. For every graph, mode and hour, \<open>dijkstra\<close> from a node to itself returns the path
  made of that one node, with total distance 0 and estimated time 0.
\<close>

theorem dijkstra_start_is_end:
  "dijkstra g start_id start_id m h =
     Some \<lparr>path = [start_id], total_distance = 0, estimated_time = 0,
           mode = m, mode_name = mode_name_of m\<rparr>"
proof -
  have loop: "search_loop g start_id m h (initial_state g start_id)
              = Some ((initial_state g start_id)\<lparr>pq := []\<rparr>)"
    by (subst search_loop.simps) (simp add: initial_state_def search_body_def)
  have entry: "distances_at (distances (initial_state g start_id)) start_id = Finite 0"
    by (simp add: initial_state_def distances_at_def)
  have walk: "walk_back prev start_id start_id [] = Some []" for prev
    by (subst walk_back.simps) simp
  show ?thesis
    by (simp add: dijkstra_def loop entry walk calculate_metrics_def Let_def)
qed

theorem dijkstra_start_is_end_witness:
  "dijkstra dangling_graph 4 4 SPEED_LIMIT 17 =
     Some \<lparr>path = [4], total_distance = 0, estimated_time = 0, mode = SPEED_LIMIT,
           mode_name = ''Speed Limit (Traditional GPS)''\<rparr>"
  using dijkstra_start_is_end [of dangling_graph 4 SPEED_LIMIT 17]
  by (simp add: mode_name_of_def)

lemma two_node_graph_fields:
  "nodes two_node_graph = [1 \<mapsto> \<lparr>id' = 1, lat = 0, lon = 0\<rparr>, 2 \<mapsto> \<lparr>id' = 2, lat = 0, lon = 0.001\<rparr>]"
  "adjacency_list two_node_graph =
     [(1, [\<lparr>to = 2, distance = 111, speed_limit = 40, road_type = ''residential'',
            crowd_multiplier = 1\<rparr>])]"
  by (simp_all add: two_node_graph_def addEdge_def addNode_def empty_graph_def
      default_speed_limit_def)

text \<open>
  C1, as the claim states it: an unknown start or end gives the empty result. It fails
  where the unknown start is also the end: the result is the path of that one identity.
\<close>

theorem unknown_start_equal_end_counterexample:
  "nodes two_node_graph 3 = None
   \<and> dijkstra two_node_graph 3 3 LEARNED 8 =
       Some \<lparr>path = [3], total_distance = 0, estimated_time = 0, mode = LEARNED,
             mode_name = ''Learned Patterns (Advanced)''\<rparr>"
proof -
  have loop: "search_loop two_node_graph 3 LEARNED 8 (initial_state two_node_graph 3)
              = Some ((initial_state two_node_graph 3)\<lparr>pq := []\<rparr>)"
    by (subst search_loop.simps) (simp add: initial_state_def search_body_def)
  have entry: "distances_at (distances (initial_state two_node_graph 3)) 3 = Finite 0"
    by (simp add: initial_state_def distances_at_def)
  have walk: "walk_back prev 3 3 [] = Some []" for prev
    by (subst walk_back.simps) simp
  show ?thesis
    by (simp add: dijkstra_def loop entry walk calculate_metrics_def Let_def mode_name_of_def
        two_node_graph_fields)
qed

text \<open>
  C1, amended. If the start identity is not a node of the graph and has no stored outgoing
  edge, and the end identity is a node of the graph, \<open>dijkstra\<close> returns the result with
  the empty path, total distance 0 and estimated time 0; nothing is raised.
\<close>

theorem dijkstra_unknown_start_without_edges:
  assumes start_unknown: "nodes g start_id = None"
    and no_edges: "getEdges g start_id = None \<or> getEdges g start_id = Some []"
    and end_known: "nodes g end_id \<noteq> None"
  shows "dijkstra g start_id end_id m h =
           Some \<lparr>path = [], total_distance = 0, estimated_time = 0,
                 mode = m, mode_name = mode_name_of m\<rparr>"
proof -
  from start_unknown end_known have different: "start_id \<noteq> end_id"
    by auto
  have body: "search_body g end_id m h (initial_state g start_id)
              = (True, (initial_state g start_id)\<lparr>pq := []\<rparr>)"
    using different no_edges
    by (auto simp: search_body_def initial_state_def distances_at_def)
  have "search_loop g end_id m h (initial_state g start_id)
        = search_loop g end_id m h ((initial_state g start_id)\<lparr>pq := []\<rparr>)"
    by (subst search_loop.simps) (simp add: body, simp add: initial_state_def)
  also have "\<dots> = Some ((initial_state g start_id)\<lparr>pq := []\<rparr>)"
    by (subst search_loop.simps) simp
  finally have loop: "search_loop g end_id m h (initial_state g start_id)
        = Some ((initial_state g start_id)\<lparr>pq := []\<rparr>)" .
  have entry: "distances_at (distances (initial_state g start_id)) end_id = Infinity"
    using different end_known by (auto simp: initial_state_def distances_at_def)
  show ?thesis
    by (simp add: dijkstra_def loop entry)
qed

theorem dijkstra_unknown_start_without_edges_witness:
  "nodes two_node_graph 3 = None \<and> getEdges two_node_graph 3 = None
   \<and> nodes two_node_graph 2 \<noteq> None
   \<and> dijkstra two_node_graph 3 2 SPEED_LIMIT 12 =
       Some \<lparr>path = [], total_distance = 0, estimated_time = 0, mode = SPEED_LIMIT,
             mode_name = ''Speed Limit (Traditional GPS)''\<rparr>"
proof -
  have a: "nodes two_node_graph 3 = None" and b: "getEdges two_node_graph 3 = None"
    and c: "nodes two_node_graph 2 \<noteq> None"
    by (simp_all add: two_node_graph_fields getEdges_def)
  from b have b': "getEdges two_node_graph 3 = None \<or> getEdges two_node_graph 3 = Some []" ..
  show ?thesis
    using a b c dijkstra_unknown_start_without_edges [OF a b' c, of SPEED_LIMIT 12]
    by (simp add: mode_name_of_def)
qed

subsection \<open>An end identity that is not a node\<close>

text \<open>
  The walk back reads \<open>previous[current]\<close>. On an identity no relaxation wrote to, the
  read gives 0; at 0, with no entry for 0 and a start other than 0, the walk reads 0 again
  and never ends.
\<close>

lemma walk_back_returns_not_stuck:
  assumes "walk_back prev start_id current p = Some y"
  shows "\<not> (prev 0 = None \<and> start_id \<noteq> 0 \<and> current = 0)"
proof (rule walk_back.raw_induct
    [where P = "\<lambda>prev start_id current p y. \<not> (prev 0 = None \<and> start_id \<noteq> 0 \<and> current = 0)",
     OF _ assms])
  fix f :: "(int \<rightharpoonup> int) \<Rightarrow> int \<Rightarrow> int \<Rightarrow> int list \<Rightarrow> int list option"
    and prev start_id current p y
  assume IH: "\<And>prev start_id current p y. f prev start_id current p = Some y \<Longrightarrow>
                \<not> (prev 0 = None \<and> start_id \<noteq> 0 \<and> current = 0)"
    and unfolded: "(if current \<noteq> start_id
                    then f prev start_id (previous_at prev current) (p @ [current])
                    else Some p) = Some y"
  show "\<not> (prev 0 = None \<and> start_id \<noteq> 0 \<and> current = 0)"
  proof
    assume stuck: "prev 0 = None \<and> start_id \<noteq> 0 \<and> current = 0"
    then have "f prev start_id 0 (p @ [0]) = Some y"
      using unfolded by (simp add: previous_at_def)
    from IH [OF this] stuck show False
      by simp
  qed
qed

lemma walk_back_stuck_at_zero:
  assumes "prev 0 = None" "start_id \<noteq> 0"
  shows "walk_back prev start_id 0 p = None"
proof (cases "walk_back prev start_id 0 p")
  case None
  then show ?thesis .
next
  case (Some y)
  from walk_back_returns_not_stuck [OF Some] assms show ?thesis
    by simp
qed

lemma two_node_graph_search:
  "search_loop two_node_graph 3 DISTANCE 12 (initial_state two_node_graph 1) =
     Some \<lparr>distances = (\<lambda>k. case nodes two_node_graph k of None \<Rightarrow> None | Some n \<Rightarrow> Some Infinity)
                          (1 \<mapsto> Finite 0, 2 \<mapsto> Finite 111),
           previous = [2 \<mapsto> 1], pq = []\<rparr>"
  by (simp add: search_loop.simps search_body_def initial_state_def two_node_graph_def
      addEdge_def addNode_def empty_graph_def getEdges_def distances_at_def)

text \<open>
  C2 says that \<open>dijkstra\<close> returns for all inputs, also for an end identity that is not a
  node. On the graph with the nodes 1 and 2 and one edge from 1 to 2, the search from 1
  to the unknown identity 3 ends with an empty frontier, the table entry of 3 reads 0 and
  not infinity, and the walk back from 3 never ends: the call does not return.
\<close>

theorem dijkstra_unknown_end_never_returns:
  "nodes two_node_graph 3 = None \<and> dijkstra two_node_graph 1 3 DISTANCE 12 = None"
proof -
  have absent: "nodes two_node_graph 3 = None"
    by (simp add: two_node_graph_def addEdge_def addNode_def empty_graph_def)
  have entry: "distances_at ((\<lambda>k. case nodes two_node_graph k of None \<Rightarrow> None | Some n \<Rightarrow> Some Infinity)
                          (1 \<mapsto> Finite 0, 2 \<mapsto> Finite 111)) 3 = Finite 0"
    using absent by (simp add: distances_at_def)
  have "walk_back [2 \<mapsto> 1] 1 3 [] = walk_back [2 \<mapsto> 1] 1 0 [3]"
    by (subst walk_back.simps) (simp add: previous_at_def)
  also have "\<dots> = None"
    by (rule walk_back_stuck_at_zero) simp_all
  finally have walk: "walk_back [2 \<mapsto> 1] 1 3 [] = None" .
  have "dijkstra two_node_graph 1 3 DISTANCE 12 = None"
    by (simp add: dijkstra_def two_node_graph_search entry walk)
  with absent show ?thesis ..
qed

subsection \<open>The reported metrics\<close>

lemma parallel_graph_fields:
  "nodes parallel_graph =
     [1 \<mapsto> \<lparr>id' = 1, lat = 0, lon = 0\<rparr>, 2 \<mapsto> \<lparr>id' = 2, lat = 0, lon = 0.001\<rparr>]"
  "adjacency_list parallel_graph =
     [(1, [\<lparr>to = 2, distance = 10, speed_limit = 100, road_type = ''motorway'',
            crowd_multiplier = 1\<rparr>,
           \<lparr>to = 2, distance = 5, speed_limit = 40, road_type = ''residential'',
            crowd_multiplier = 1\<rparr>])]"
  by (simp_all add: parallel_graph_def addEdge_def addNode_def empty_graph_def
      default_speed_limit_def)

lemma parallel_graph_search:
  "search_loop parallel_graph 2 DISTANCE 12 (initial_state parallel_graph 1) =
     Some \<lparr>distances = (\<lambda>k. case nodes parallel_graph k of None \<Rightarrow> None | Some n \<Rightarrow> Some Infinity)
                          (1 \<mapsto> Finite 0, 2 \<mapsto> Finite 5),
           previous = [2 \<mapsto> 1], pq = [(10, 2)]\<rparr>"
  by (simp add: search_loop.simps search_body_def initial_state_def parallel_graph_fields
      getEdges_def distances_at_def Let_def)

text \<open>
  C4 says that the reported total distance is the sum of the stored distances of the edges
  of the returned route, and the reported time the sum of their Learned-style times. The
  metric loop takes, for each pair of neighbours on the path, the first stored edge from the
  one to the other, which need not be the edge the search relaxed. With an edge from 1 to 2
  of 10 m (motorway) stored before one of 5 m (residential), the Distance search reaches 2
  over the second edge, at distance 5, and the result reports 10 m and the time of the
  motorway edge, 10 / (100 * 1000/3600), not the 5 m and 5 / (40 * 1000/3600) of the edge
  of the route.
\<close>

theorem reported_metrics_of_parallel_edges:
  "map_option (\<lambda>st. (distances_at (distances st) 2, previous st 2))
     (search_loop parallel_graph 2 DISTANCE 12 (initial_state parallel_graph 1))
     = Some (Finite 5, Some 1)
   \<and> dijkstra parallel_graph 1 2 DISTANCE 12 =
       Some \<lparr>path = [1, 2], total_distance = 10, estimated_time = 10 / (100 * 1000 / 3600),
             mode = DISTANCE, mode_name = ''Pure Distance''\<rparr>"
proof -
  have searched: "map_option (\<lambda>st. (distances_at (distances st) 2, previous st 2))
     (search_loop parallel_graph 2 DISTANCE 12 (initial_state parallel_graph 1))
     = Some (Finite 5, Some 1)"
    by (simp add: parallel_graph_search distances_at_def)
  have walk: "walk_back [2 \<mapsto> 1] 1 2 [] = Some [2]"
    by (simp add: walk_back.simps previous_at_def)
  have reported: "dijkstra parallel_graph 1 2 DISTANCE 12 =
       Some \<lparr>path = [1, 2], total_distance = 10, estimated_time = 10 / (100 * 1000 / 3600),
             mode = DISTANCE, mode_name = ''Pure Distance''\<rparr>"
    by (simp add: dijkstra_def parallel_graph_search walk distances_at_def calculate_metrics_def
        parallel_graph_fields getEdges_def getTimeAdjustedSpeed_def mode_name_of_def Let_def)
  from searched reported show ?thesis ..
qed

subsection \<open>Edges to identities that are not nodes\<close>

lemma getTimeAdjustedSpeed_pos: "0 < speed_limit e \<Longrightarrow> 0 < getTimeAdjustedSpeed e h"
  by (simp add: getTimeAdjustedSpeed_def Let_def)

lemma calculateEdgeWeight_nonneg:
  assumes "edge_valid e"
  shows "0 \<le> calculateEdgeWeight e m h"
proof (cases m)
  case DISTANCE
  with assms show ?thesis by (simp add: edge_valid_def)
next
  case SPEED_LIMIT
  with assms show ?thesis by (simp add: edge_valid_def)
next
  case LEARNED
  from assms have "0 < getTimeAdjustedSpeed e h * crowd_multiplier e"
    by (simp add: edge_valid_def getTimeAdjustedSpeed_pos)
  with assms LEARNED show ?thesis
    by (simp add: edge_valid_def Let_def)
qed

lemma getEdges_stored:
  "getEdges g k = Some es \<Longrightarrow> set es \<subseteq> set (stored_edges g)"
  unfolding getEdges_def stored_edges_def
  by (auto dest!: map_of_SomeD)

lemma relax_edges_invariant:
  assumes "list_all edge_valid es" and "0 \<le> current_dist"
    and "current_id = start_id \<or> current_id \<in> dom (previous st)"
    and "search_invariant g start_id st"
  shows "search_invariant g start_id (relax_edges m h current_dist current_id es st)"
  using assms
proof (induction es arbitrary: st)
  case Nil
  then show ?case by simp
next
  case (Cons e es)
  define new_dist where "new_dist = current_dist + calculateEdgeWeight e m h"
  have nonneg: "0 \<le> new_dist"
    using Cons.prems(1,2) calculateEdgeWeight_nonneg [of e m h] by (simp add: new_dist_def)
  show ?case
  proof (cases "less_than_entry new_dist (distances_at (distances st) (to e))")
    case False
    then have "relax_edges m h current_dist current_id (e # es) st =
               relax_edges m h current_dist current_id es st"
      by (simp add: new_dist_def Let_def)
    with Cons show ?thesis
      by simp
  next
    case True
    define st' where "st' = st\<lparr>distances := (distances st)(to e \<mapsto> Finite new_dist),
                                previous := (previous st)(to e \<mapsto> current_id),
                                pq := insort (new_dist, to e) (pq st)\<rparr>"
    have known: "nodes g (to e) \<noteq> None"
    proof
      assume "nodes g (to e) = None"
      with Cons.prems(4) have "distances_at (distances st) (to e) = Finite 0"
        by (simp add: search_invariant_def)
      with True nonneg show False
        by simp
    qed
    have inv': "search_invariant g start_id st'"
      unfolding search_invariant_def
    proof (intro conjI)
      show "\<forall>(d, v) \<in> set (pq st'). 0 \<le> d \<and> (v = start_id \<and> d = 0 \<or> v \<in> dom (previous st'))"
        using Cons.prems(4) nonneg
        by (auto simp: search_invariant_def st'_def set_insort_key)
      show "\<forall>k v. previous st' k = Some v \<longrightarrow>
              nodes g k \<noteq> None \<and> (v = start_id \<or> v \<in> dom (previous st'))"
        using Cons.prems(3,4) known
        by (auto simp: search_invariant_def st'_def)
      show "\<forall>k. nodes g k = None \<longrightarrow> distances_at (distances st') k = Finite 0"
        using Cons.prems(4) known
        by (auto simp: search_invariant_def st'_def distances_at_def)
    qed
    have current': "current_id = start_id \<or> current_id \<in> dom (previous st')"
      using Cons.prems(3) by (auto simp: st'_def)
    have "relax_edges m h current_dist current_id (e # es) st =
          relax_edges m h current_dist current_id es st'"
      using True by (simp add: new_dist_def st'_def Let_def)
    moreover have "search_invariant g start_id (relax_edges m h current_dist current_id es st')"
      using Cons.IH [OF _ Cons.prems(2) current' inv'] Cons.prems(1) by simp
    ultimately show ?thesis
      by simp
  qed
qed

lemma search_invariant_pop:
  assumes "search_invariant g start_id st"
  shows "search_invariant g start_id (st\<lparr>pq := tl (pq st)\<rparr>)"
proof -
  have "set (tl (pq st)) \<subseteq> set (pq st)"
    by (cases "pq st") auto
  with assms show ?thesis
    unfolding search_invariant_def by (simp add: subset_iff) blast
qed

lemma search_body_invariant:
  assumes valid: "edges_valid g" and inv: "search_invariant g start_id st" and "pq st \<noteq> []"
  shows "search_invariant g start_id (snd (search_body g end_id m h st))"
proof -
  obtain current_dist current_id where top: "hd (pq st) = (current_dist, current_id)"
    by (cases "hd (pq st)")
  define st1 where "st1 = st\<lparr>pq := tl (pq st)\<rparr>"
  have inv1: "search_invariant g start_id st1"
    unfolding st1_def by (rule search_invariant_pop [OF inv])
  have "(current_dist, current_id) \<in> set (pq st)"
    using top \<open>pq st \<noteq> []\<close> by (metis hd_in_set)
  with inv have top_ok: "0 \<le> current_dist"
    "current_id = start_id \<or> current_id \<in> dom (previous st1)"
    by (auto simp: search_invariant_def st1_def)
  have relaxed: "search_invariant g start_id (relax_edges m h current_dist current_id es st1)"
    if "getEdges g current_id = Some es" for es
  proof -
    from getEdges_stored [OF that] valid have "list_all edge_valid es"
      by (auto simp: edges_valid_def list_all_iff)
    from relax_edges_invariant [OF this top_ok inv1] show ?thesis .
  qed
  show ?thesis
    using inv1 relaxed
    by (auto simp: search_body_def top st1_def [symmetric] Let_def split: option.splits)
qed

lemma initial_state_invariant: "search_invariant g start_id (initial_state g start_id)"
  by (auto simp: search_invariant_def initial_state_def distances_at_def)

lemma search_reaches_invariant:
  assumes "search_reaches g start_id end_id m h fs" and "edges_valid g"
  shows "search_invariant g start_id (snd fs)"
  using assms
proof (induction rule: search_reaches.induct)
  case reaches_initial
  show ?case
    by (simp add: initial_state_invariant)
next
  case (reaches_body st)
  then show ?case
    by (simp add: search_body_invariant)
qed


lemma search_loop_reaches:
  assumes "search_loop g end_id m h st = Some st'"
    and "search_reaches g start_id end_id m h (True, st)"
  shows "\<exists>flag. search_reaches g start_id end_id m h (flag, st')"
proof -
  have "search_reaches g start_id end_id m h (True, st) \<longrightarrow>
        (\<exists>flag. search_reaches g start_id end_id m h (flag, st'))"
  proof (rule search_loop.raw_induct
      [where P = "\<lambda>g end_id m h st st'. search_reaches g start_id end_id m h (True, st) \<longrightarrow>
                    (\<exists>flag. search_reaches g start_id end_id m h (flag, st'))", OF _ assms(1)])
    fix f :: "Graph \<Rightarrow> int \<Rightarrow> RouteMode \<Rightarrow> int \<Rightarrow> search_state \<Rightarrow> search_state option"
      and g end_id m h st y
    assume IH: "\<And>g end_id m h st y. f g end_id m h st = Some y \<Longrightarrow>
                  search_reaches g start_id end_id m h (True, st) \<longrightarrow>
                  (\<exists>flag. search_reaches g start_id end_id m h (flag, y))"
      and unfolded: "(if pq st = [] then Some st
                      else (let (continue, st') = search_body g end_id m h st
                            in if continue then f g end_id m h st' else Some st')) = Some y"
    show "search_reaches g start_id end_id m h (True, st) \<longrightarrow>
          (\<exists>flag. search_reaches g start_id end_id m h (flag, y))"
    proof
      assume here: "search_reaches g start_id end_id m h (True, st)"
      show "\<exists>flag. search_reaches g start_id end_id m h (flag, y)"
      proof (cases "pq st = []")
        case True
        with unfolded here show ?thesis
          by auto
      next
        case False
        obtain continue st' where body: "search_body g end_id m h st = (continue, st')"
          by (cases "search_body g end_id m h st")
        from reaches_body [OF here False] body
        have next_state: "search_reaches g start_id end_id m h (continue, st')"
          by simp
        show ?thesis
        proof (cases continue)
          case True
          with unfolded False body have "f g end_id m h st' = Some y"
            by simp
          from IH [OF this] next_state True show ?thesis
            by simp
        next
          case False
          with unfolded \<open>pq st \<noteq> []\<close> body have "y = st'"
            by simp
          with next_state show ?thesis
            by auto
        qed
      qed
    qed
  qed
  with assms(2) show ?thesis
    by simp
qed

text \<open>The walk back, when it ends, appended a chain of identities: all but the first were
  written by a relaxation.\<close>

lemma walk_back_chain:
  assumes "walk_back prev start_id current p = Some y"
    and closed: "\<forall>k v. prev k = Some v \<longrightarrow> v = start_id \<or> v \<in> dom prev"
  shows "\<exists>chain. y = p @ chain \<and> set (tl chain) \<subseteq> dom prev"
proof -
  let ?closed = "\<lambda>prev start_id. \<forall>k v. prev k = Some v \<longrightarrow> v = start_id \<or> v \<in> dom prev"
  let ?P = "\<lambda>prev start_id current p y.
              \<not> (prev 0 = None \<and> start_id \<noteq> 0 \<and> current = 0)
              \<and> (?closed prev start_id \<longrightarrow>
                   (\<exists>chain. y = p @ chain \<and> set (tl chain) \<subseteq> dom prev
                      \<and> (current \<in> dom prev \<or> current = start_id \<longrightarrow> set chain \<subseteq> dom prev)))"
  have "?P prev start_id current p y"
  proof (rule walk_back.raw_induct [where P = ?P, OF _ assms(1)])
    fix f :: "(int \<rightharpoonup> int) \<Rightarrow> int \<Rightarrow> int \<Rightarrow> int list \<Rightarrow> int list option"
      and prev start_id current p y
    assume IH: "\<And>prev start_id current p y. f prev start_id current p = Some y \<Longrightarrow>
                  ?P prev start_id current p y"
      and unfolded: "(if current \<noteq> start_id
                      then f prev start_id (previous_at prev current) (p @ [current])
                      else Some p) = Some y"
    show "?P prev start_id current p y"
    proof (cases "current = start_id")
      case True
      with unfolded have "y = p @ []"
        by simp
      moreover have "\<not> (prev 0 = None \<and> start_id \<noteq> 0 \<and> current = 0)"
        using True by simp
      ultimately show ?thesis
        by (metis empty_iff empty_set list.sel(2) subsetI)
    next
      case False
      with unfolded have rec: "f prev start_id (previous_at prev current) (p @ [current]) = Some y"
        by simp
      note ih = IH [OF rec]
      have not_stuck: "\<not> (prev 0 = None \<and> start_id \<noteq> 0 \<and> current = 0)"
      proof
        assume stuck: "prev 0 = None \<and> start_id \<noteq> 0 \<and> current = 0"
        then have "previous_at prev current = 0"
          by (simp add: previous_at_def)
        with ih stuck show False
          by simp
      qed
      have chain: "\<exists>chain. y = p @ chain \<and> set (tl chain) \<subseteq> dom prev
                      \<and> (current \<in> dom prev \<or> current = start_id \<longrightarrow> set chain \<subseteq> dom prev)"
        if cl: "?closed prev start_id"
      proof -
        from ih cl obtain chain' where chain':
          "y = (p @ [current]) @ chain'" "set (tl chain') \<subseteq> dom prev"
          "previous_at prev current \<in> dom prev \<or> previous_at prev current = start_id
             \<longrightarrow> set chain' \<subseteq> dom prev"
          by blast
        have "previous_at prev current \<in> dom prev \<or> previous_at prev current = start_id"
        proof (cases "prev current")
          case (Some v)
          with cl show ?thesis
            by (auto simp: previous_at_def)
        next
          case None
          then have zero: "previous_at prev current = 0"
            by (simp add: previous_at_def)
          from ih zero have "\<not> (prev 0 = None \<and> start_id \<noteq> 0)"
            by simp
          with zero show ?thesis
            by auto
        qed
        with chain'(3) have rest: "set chain' \<subseteq> dom prev"
          by simp
        have "y = p @ (current # chain')"
          using chain'(1) by simp
        moreover have "set (tl (current # chain')) \<subseteq> dom prev"
          using rest by simp
        moreover have "current \<in> dom prev \<or> current = start_id \<longrightarrow>
                       set (current # chain') \<subseteq> dom prev"
          using rest False by simp
        ultimately show ?thesis
          by blast
      qed
      from not_stuck chain show ?thesis
        by blast
    qed
  qed
  with closed show ?thesis
    by blast
qed

lemma calculate_metrics_path: "path (calculate_metrics g h r) = path r"
proof -
  have step: "path (add_first_edge h n es r) = path r" for n es r
    by (induction es) (simp_all add: Let_def)
  have "path (fold (\<lambda>i r. case getEdges g (path r ! i) of
                  None \<Rightarrow> r
                | Some edges \<Rightarrow> add_first_edge h (path r ! (i + 1)) edges r) is r) = path r" for "is"
    by (induction "is" arbitrary: r) (simp_all add: step split: option.splits)
  then show ?thesis
    by (simp add: calculate_metrics_def)
qed

lemma dijkstra_inner_nodes:
  assumes valid: "edges_valid g" and result: "dijkstra g start_id end_id m h = Some r"
  shows "\<forall>x \<in> set (butlast (tl (path r))). nodes g x \<noteq> None"
proof -
  let ?empty = "\<lparr>path = [], total_distance = 0, estimated_time = 0,
                  mode = m, mode_name = mode_name_of m\<rparr>"
  from result consider (no_path) "r = ?empty"
    | (found) st p where "search_loop g end_id m h (initial_state g start_id) = Some st"
        "walk_back (previous st) start_id end_id [] = Some p"
        "r = calculate_metrics g h (?empty\<lparr>path := rev (p @ [start_id])\<rparr>)"
    by (auto simp: dijkstra_def Let_def split: option.splits if_splits)
  then show ?thesis
  proof cases
    case no_path
    then show ?thesis by simp
  next
    case found
    from search_loop_reaches [OF found(1) reaches_initial]
    obtain flag where "search_reaches g start_id end_id m h (flag, st)" ..
    from search_reaches_invariant [OF this valid]
    have inv: "search_invariant g start_id st"
      by simp
    then have closed: "\<forall>k v. previous st k = Some v \<longrightarrow> v = start_id \<or> v \<in> dom (previous st)"
      and known: "\<forall>k \<in> dom (previous st). nodes g k \<noteq> None"
      by (auto simp: search_invariant_def)
    from walk_back_chain [OF found(2) closed]
    obtain chain where chain: "p = chain" "set (tl chain) \<subseteq> dom (previous st)"
      by auto
    have "path r = start_id # rev chain"
      using found(3) chain(1) by (simp add: calculate_metrics_path)
    then have "butlast (tl (path r)) = rev (tl chain)"
      by (cases chain rule: rev_cases) (simp_all add: butlast_append)
    with chain(2) known show ?thesis
      by auto
  qed
qed

lemma negative_graph_fields:
  "nodes negative_graph =
     [1 \<mapsto> \<lparr>id' = 1, lat = 0, lon = 0\<rparr>, 3 \<mapsto> \<lparr>id' = 3, lat = 0, lon = 0.002\<rparr>]"
  "adjacency_list negative_graph =
     [(1, [\<lparr>to = 2, distance = - 5, speed_limit = 40, road_type = ''residential'',
            crowd_multiplier = 1\<rparr>]),
      (2, [\<lparr>to = 3, distance = 1, speed_limit = 40, road_type = ''residential'',
            crowd_multiplier = 1\<rparr>])]"
  by (simp_all add: negative_graph_def addEdge_def addNode_def empty_graph_def
      default_speed_limit_def)

text \<open>
  C7, as the claim states it, for every search. It fails when an edge has a negative
  distance, which \<open>addEdge\<close> stores: the relaxation into the unknown identity 2 succeeds
  and 2 is an inner node of the returned path.
\<close>

theorem unknown_node_on_path_counterexample:
  "nodes negative_graph 2 = None
   \<and> map_option path (dijkstra negative_graph 1 3 DISTANCE 12) = Some [1, 2, 3]"
  by (simp add: dijkstra_def search_loop.simps walk_back.simps search_body_def initial_state_def
      negative_graph_fields getEdges_def distances_at_def previous_at_def calculate_metrics_def
      getTimeAdjustedSpeed_def mode_name_of_def)

text \<open>
  C7, amended. When every stored edge has a distance that is not negative and a positive
  speed limit and crowd multiplier, then in every state a search reaches, an identity that
  is not a node has no predecessor entry (no relaxation into it succeeded), its table entry
  reads 0, and it is in the frontier only as the first entry (0, start); and every inner
  node of a returned path is a node of the graph.
\<close>

theorem unknown_targets_are_dead_ends:
  assumes "edges_valid g"
  shows "(\<forall>flag st k. search_reaches g start_id end_id m h (flag, st) \<and> nodes g k = None \<longrightarrow>
            previous st k = None
            \<and> distances_at (distances st) k = Finite 0
            \<and> (\<forall>d. (d, k) \<in> set (pq st) \<longrightarrow> k = start_id \<and> d = 0))
         \<and> (\<forall>r. dijkstra g start_id end_id m h = Some r \<longrightarrow>
               (\<forall>x \<in> set (butlast (tl (path r))). nodes g x \<noteq> None))"
proof (intro conjI allI impI)
  fix flag st k
  assume "search_reaches g start_id end_id m h (flag, st) \<and> nodes g k = None"
  then have reached: "search_reaches g start_id end_id m h (flag, st)" and unknown: "nodes g k = None"
    by simp_all
  from search_reaches_invariant [OF reached assms]
  have inv: "search_invariant g start_id st"
    by simp
  have writes: "nodes g k' \<noteq> None" if "previous st k' = Some v" for k' v
    using inv that unfolding search_invariant_def by blast
  show no_write: "previous st k = None"
  proof (cases "previous st k")
    case None
    then show ?thesis .
  next
    case (Some v)
    from writes [OF Some] unknown show ?thesis
      by simp
  qed
  from inv unknown show "distances_at (distances st) k = Finite 0"
    by (simp add: search_invariant_def)
  fix d
  assume "(d, k) \<in> set (pq st)"
  with inv have "k = start_id \<and> d = 0 \<or> k \<in> dom (previous st)"
    by (auto simp: search_invariant_def)
  with no_write show "k = start_id" and "d = 0"
    by auto
next
  fix r
  assume "dijkstra g start_id end_id m h = Some r"
  from dijkstra_inner_nodes [OF assms this]
  show "\<forall>x \<in> set (butlast (tl (path r))). nodes g x \<noteq> None" .
qed

lemma dangling_graph_fields:
  "nodes dangling_graph =
     [1 \<mapsto> \<lparr>id' = 1, lat = 0, lon = 0\<rparr>, 3 \<mapsto> \<lparr>id' = 3, lat = 0, lon = 0.002\<rparr>,
      4 \<mapsto> \<lparr>id' = 4, lat = 0.001, lon = 0.001\<rparr>]"
  "adjacency_list dangling_graph =
     [(1, [\<lparr>to = 2, distance = 1, speed_limit = 40, road_type = ''residential'',
            crowd_multiplier = 1\<rparr>,
           \<lparr>to = 4, distance = 3, speed_limit = 40, road_type = ''residential'',
            crowd_multiplier = 1\<rparr>]),
      (2, [\<lparr>to = 3, distance = 1, speed_limit = 40, road_type = ''residential'',
            crowd_multiplier = 1\<rparr>]),
      (4, [\<lparr>to = 3, distance = 3, speed_limit = 40, road_type = ''residential'',
            crowd_multiplier = 1\<rparr>])]"
  by (simp_all add: dangling_graph_def addEdge_def addNode_def empty_graph_def
      default_speed_limit_def)

lemma dangling_graph_route:
  "map_option path (dijkstra dangling_graph 1 3 DISTANCE 12) = Some [1, 4, 3]"
  by (simp add: dijkstra_def search_loop.simps walk_back.simps search_body_def initial_state_def
      dangling_graph_fields getEdges_def distances_at_def previous_at_def calculate_metrics_def
      getTimeAdjustedSpeed_def mode_name_of_def)

theorem unknown_targets_are_dead_ends_witness:
  "edges_valid dangling_graph \<and> nodes dangling_graph 2 = None
   \<and> search_reaches dangling_graph 1 3 DISTANCE 12
        (search_body dangling_graph 3 DISTANCE 12 (initial_state dangling_graph 1))
   \<and> pq (snd (search_body dangling_graph 3 DISTANCE 12 (initial_state dangling_graph 1))) = [(3, 4)]
   \<and> previous (snd (search_body dangling_graph 3 DISTANCE 12 (initial_state dangling_graph 1))) 2 = None
   \<and> map_option path (dijkstra dangling_graph 1 3 DISTANCE 12) = Some [1, 4, 3]
   \<and> nodes dangling_graph 4 \<noteq> None"
proof -
  have valid: "edges_valid dangling_graph"
    by (simp add: edges_valid_def stored_edges_def edge_valid_def dangling_graph_fields)
  have unknown: "nodes dangling_graph 2 = None"
    by (simp add: dangling_graph_fields)
  have reached: "search_reaches dangling_graph 1 3 DISTANCE 12
        (search_body dangling_graph 3 DISTANCE 12 (initial_state dangling_graph 1))"
    by (rule reaches_body [OF reaches_initial]) (simp add: initial_state_def)
  have frontier:
    "pq (snd (search_body dangling_graph 3 DISTANCE 12 (initial_state dangling_graph 1))) = [(3, 4)]"
    by (simp add: search_body_def initial_state_def dangling_graph_fields getEdges_def
        distances_at_def)
  obtain r where r: "dijkstra dangling_graph 1 3 DISTANCE 12 = Some r" "path r = [1, 4, 3]"
    using dangling_graph_route by auto
  note dead_end = unknown_targets_are_dead_ends [OF valid, of 1 3 DISTANCE 12]
  from dead_end reached unknown
  have "previous (snd (search_body dangling_graph 3 DISTANCE 12 (initial_state dangling_graph 1))) 2
        = None"
    by (metis prod.collapse)
  moreover from dead_end r have "nodes dangling_graph 4 \<noteq> None"
    by auto
  ultimately show ?thesis
    using valid unknown reached frontier dangling_graph_route by simp
qed

subsection \<open>Arguments outside the documented ranges\<close>

lemma getTimeAdjustedSpeed_outside_rush:
  assumes "\<not> (7 \<le> h \<and> h \<le> 9)" "\<not> (17 \<le> h \<and> h \<le> 19)"
  shows "getTimeAdjustedSpeed e h = speed_limit e"
proof -
  from assms have "(7 \<le> h \<and> h \<le> 9 \<or> 17 \<le> h \<and> h \<le> 19) = False"
    by simp
  then show ?thesis
    unfolding getTimeAdjustedSpeed_def Let_def by (simp only: if_False)
qed

text \<open>The search reads the hour through \<open>getTimeAdjustedSpeed\<close> only.\<close>

lemma calculateEdgeWeight_same_speed:
  assumes "getTimeAdjustedSpeed e h = getTimeAdjustedSpeed e h'"
  shows "calculateEdgeWeight e m h = calculateEdgeWeight e m h'"
proof (cases m)
  case DISTANCE
  then show ?thesis by simp
next
  case SPEED_LIMIT
  then show ?thesis by simp
next
  case LEARNED
  show ?thesis
    unfolding LEARNED calculateEdgeWeight.simps Let_def by (simp only: assms)
qed

lemma relax_edges_same_speed:
  "\<forall>e. getTimeAdjustedSpeed e h = getTimeAdjustedSpeed e h' \<Longrightarrow>
   relax_edges m h d c es st = relax_edges m h' d c es st"
proof (induction es arbitrary: st)
  case Nil
  then show ?case by simp
next
  case (Cons e es)
  have weight: "calculateEdgeWeight e m h = calculateEdgeWeight e m h'"
    by (rule calculateEdgeWeight_same_speed) (rule Cons.prems [rule_format])
  show ?case
    unfolding relax_edges.simps weight by (simp only: Cons.IH [OF Cons.prems])
qed

lemma search_body_same_speed:
  assumes "\<forall>e. getTimeAdjustedSpeed e h = getTimeAdjustedSpeed e h'"
  shows "search_body g end_id m h st = search_body g end_id m h' st"
proof -
  have "relax_edges m h = relax_edges m h'"
    by (intro ext) (rule relax_edges_same_speed [OF assms])
  then show ?thesis
    unfolding search_body_def by (simp only:)
qed

lemma search_loop_same_speed_Some:
  assumes "search_loop g end_id m h st = Some y"
    and "\<forall>e. getTimeAdjustedSpeed e h = getTimeAdjustedSpeed e h'"
  shows "search_loop g end_id m h' st = Some y"
proof -
  have "(\<forall>e. getTimeAdjustedSpeed e h = getTimeAdjustedSpeed e h') \<longrightarrow>
        search_loop g end_id m h' st = Some y"
  proof (rule search_loop.raw_induct
      [where P = "\<lambda>g end_id m h st y. (\<forall>e. getTimeAdjustedSpeed e h = getTimeAdjustedSpeed e h') \<longrightarrow>
                    search_loop g end_id m h' st = Some y", OF _ assms(1)])
    fix f :: "Graph \<Rightarrow> int \<Rightarrow> RouteMode \<Rightarrow> int \<Rightarrow> search_state \<Rightarrow> search_state option"
      and g end_id m h st y
    assume IH: "\<And>g end_id m h st y. f g end_id m h st = Some y \<Longrightarrow>
                  (\<forall>e. getTimeAdjustedSpeed e h = getTimeAdjustedSpeed e h') \<longrightarrow>
                  search_loop g end_id m h' st = Some y"
      and unfolded: "(if pq st = [] then Some st
                      else (let (continue, st') = search_body g end_id m h st
                            in if continue then f g end_id m h st' else Some st')) = Some y"
    show "(\<forall>e. getTimeAdjustedSpeed e h = getTimeAdjustedSpeed e h') \<longrightarrow>
          search_loop g end_id m h' st = Some y"
    proof
      assume same: "\<forall>e. getTimeAdjustedSpeed e h = getTimeAdjustedSpeed e h'"
      obtain continue st' where body: "search_body g end_id m h st = (continue, st')"
        by (cases "search_body g end_id m h st")
      then have body': "search_body g end_id m h' st = (continue, st')"
        using search_body_same_speed [OF same] by simp
      show "search_loop g end_id m h' st = Some y"
      proof (cases "pq st = []")
        case True
        with unfolded show ?thesis
          by (subst search_loop.simps) simp
      next
        case False
        show ?thesis
        proof (cases continue)
          case True
          with unfolded \<open>pq st \<noteq> []\<close> body have "f g end_id m h st' = Some y"
            by simp
          from IH [OF this] same have "search_loop g end_id m h' st' = Some y"
            by simp
          with True \<open>pq st \<noteq> []\<close> body' show ?thesis
            by (subst search_loop.simps) simp
        next
          case False
          with unfolded \<open>pq st \<noteq> []\<close> body have "y = st'"
            by simp
          with False \<open>pq st \<noteq> []\<close> body' show ?thesis
            by (subst search_loop.simps) simp
        qed
      qed
    qed
  qed
  with assms(2) show ?thesis
    by simp
qed

lemma search_loop_same_speed:
  assumes "\<forall>e. getTimeAdjustedSpeed e h = getTimeAdjustedSpeed e h'"
  shows "search_loop g end_id m h st = search_loop g end_id m h' st"
proof (cases "search_loop g end_id m h st")
  case (Some y)
  with search_loop_same_speed_Some [OF Some assms] show ?thesis
    by simp
next
  case None
  show ?thesis
  proof (cases "search_loop g end_id m h' st")
    case None
    with \<open>search_loop g end_id m h st = None\<close> show ?thesis
      by simp
  next
    case (Some y)
    from assms have "\<forall>e. getTimeAdjustedSpeed e h' = getTimeAdjustedSpeed e h"
      by simp
    from search_loop_same_speed_Some [OF Some this] None show ?thesis
      by simp
  qed
qed

lemma add_first_edge_same_speed:
  "\<forall>e. getTimeAdjustedSpeed e h = getTimeAdjustedSpeed e h' \<Longrightarrow>
   add_first_edge h n es r = add_first_edge h' n es r"
  by (induction es) (simp_all add: Let_def)

lemma calculate_metrics_same_speed:
  assumes "\<forall>e. getTimeAdjustedSpeed e h = getTimeAdjustedSpeed e h'"
  shows "calculate_metrics g h r = calculate_metrics g h' r"
proof -
  have "(\<lambda>i r. case getEdges g (path r ! i) of None \<Rightarrow> r
                | Some edges \<Rightarrow> add_first_edge h (path r ! (i + 1)) edges r)
      = (\<lambda>i r. case getEdges g (path r ! i) of None \<Rightarrow> r
                | Some edges \<Rightarrow> add_first_edge h' (path r ! (i + 1)) edges r)"
    using add_first_edge_same_speed [OF assms]
    by (intro ext) (simp split: option.splits)
  then show ?thesis
    by (simp add: calculate_metrics_def)
qed

lemma dijkstra_same_speed:
  assumes "\<forall>e. getTimeAdjustedSpeed e h = getTimeAdjustedSpeed e h'"
  shows "dijkstra g start_id end_id m h = dijkstra g start_id end_id m h'"
proof -
  have "search_loop g end_id m h = search_loop g end_id m h'"
    by (intro ext) (rule search_loop_same_speed [OF assms])
  moreover have "calculate_metrics g h = calculate_metrics g h'"
    by (intro ext) (rule calculate_metrics_same_speed [OF assms])
  ultimately show ?thesis
    unfolding dijkstra_def by (simp only:)
qed

text \<open>
  C3, as the claim states it: \<open>addEdge\<close> rejects a negative distance and does not store
  the edge, and \<open>dijkstra\<close> rejects an hour outside 0..23. The edge is stored, and the
  search at hour 25 returns a route like any other.
\<close>

theorem unchecked_arguments_counterexample:
  "getEdges (addEdge empty_graph 1 2 (- 5) ''residential'') 1 =
     Some [\<lparr>to = 2, distance = - 5, speed_limit = 40, road_type = ''residential'',
            crowd_multiplier = 1\<rparr>]
   \<and> dijkstra two_node_graph 1 2 LEARNED 25 =
       Some \<lparr>path = [1, 2], total_distance = 111, estimated_time = 111 / (40 * 1000 / 3600),
             mode = LEARNED, mode_name = ''Learned Patterns (Advanced)''\<rparr>"
proof -
  have stored: "getEdges (addEdge empty_graph 1 2 (- 5) ''residential'') 1 =
     Some [\<lparr>to = 2, distance = - 5, speed_limit = 40, road_type = ''residential'',
            crowd_multiplier = 1\<rparr>]"
    by (simp add: getEdges_def addEdge_def empty_graph_def default_speed_limit_def)
  have routed: "dijkstra two_node_graph 1 2 LEARNED 25 =
       Some \<lparr>path = [1, 2], total_distance = 111, estimated_time = 111 / (40 * 1000 / 3600),
             mode = LEARNED, mode_name = ''Learned Patterns (Advanced)''\<rparr>"
    by (simp add: dijkstra_def search_loop.simps walk_back.simps search_body_def initial_state_def
        two_node_graph_fields getEdges_def distances_at_def previous_at_def calculate_metrics_def
        getTimeAdjustedSpeed_def mode_name_of_def Let_def)
  from stored routed show ?thesis ..
qed

text \<open>
  C3, amended. No precondition is checked: \<open>addEdge\<close> stores the edge for every distance,
  negative ones too, and \<open>dijkstra\<close> accepts every hour: an hour below 0 or above 23 is
  outside the two rush ranges, the time adjusted speed is the speed limit, and the result
  is the one of the same call at hour 12.
\<close>

theorem no_precondition_is_checked:
  "getEdges (addEdge g from_id to_id d rt) from_id =
     Some ((case getEdges g from_id of None \<Rightarrow> [] | Some es \<Rightarrow> es) @
           [\<lparr>to = to_id, distance = d, speed_limit = default_speed_limit rt,
             road_type = rt, crowd_multiplier = 1\<rparr>])
   \<and> (h < 0 \<or> 23 < h \<longrightarrow>
        getTimeAdjustedSpeed e h = speed_limit e
        \<and> dijkstra g start_id end_id m h = dijkstra g start_id end_id m 12)"
proof -
  have stored: "getEdges (addEdge g from_id to_id d rt) from_id =
     Some ((case getEdges g from_id of None \<Rightarrow> [] | Some es \<Rightarrow> es) @
           [\<lparr>to = to_id, distance = d, speed_limit = default_speed_limit rt,
             road_type = rt, crowd_multiplier = 1\<rparr>])"
    by (simp add: getEdges_def addEdge_def map_of_push_back_at)
  have hour: "getTimeAdjustedSpeed e h = speed_limit e
        \<and> dijkstra g start_id end_id m h = dijkstra g start_id end_id m 12"
    if "h < 0 \<or> 23 < h"
  proof -
    from that have outside: "\<not> (7 \<le> h \<and> h \<le> 9)" "\<not> (17 \<le> h \<and> h \<le> 19)"
      by auto
    have noon: "getTimeAdjustedSpeed e' 12 = speed_limit e'" for e'
      by (rule getTimeAdjustedSpeed_outside_rush) simp_all
    have "\<forall>e. getTimeAdjustedSpeed e h = getTimeAdjustedSpeed e 12"
      using outside by (simp add: getTimeAdjustedSpeed_outside_rush noon)
    from dijkstra_same_speed [OF this] getTimeAdjustedSpeed_outside_rush [OF outside]
    show ?thesis
      by simp
  qed
  from stored hour show ?thesis
    by blast
qed

theorem no_precondition_is_checked_witness:
  "(23::int) < 25
   \<and> getEdges (addEdge two_node_graph 2 1 (- 5) ''residential'') 2 =
       Some [\<lparr>to = 1, distance = - 5, speed_limit = 40, road_type = ''residential'',
              crowd_multiplier = 1\<rparr>]
   \<and> dijkstra two_node_graph 1 2 LEARNED 25 = dijkstra two_node_graph 1 2 LEARNED 12"
  using no_precondition_is_checked [of two_node_graph 2 1 "- 5" "''residential''" 25 _ 1 2 LEARNED]
  by (simp add: getEdges_def two_node_graph_def addEdge_def addNode_def empty_graph_def
      default_speed_limit_def)

end
